theory Spec2Isabelle
  imports Complex_Main "HOL-Library.Multiset"
begin

section \<open>Data model (types.ts)\<close>

text \<open>
  \<^verbatim>\<open>StepId\<close> is the union of ten string literals; the constructors are listed in the
  order of the type declaration.
\<close>

datatype StepId =
    DataAssembly | PocketDetection | GenerativeDesign | RapidTriage | DockingRescoring
  | MdSimulation | AdmetPrediction | ActiveLearning | SynthesisPlanning | FinalReport

text \<open>The \<^verbatim>\<open>type\<close> field of a \<^verbatim>\<open>StepResult\<close>: \<^verbatim>\<open>'json' | 'text' | 'image_and_text'\<close>.\<close>

datatype ResultType = Json | Text | ImageAndText

text \<open>
  The \<^verbatim>\<open>data\<close> field is typed \<^verbatim>\<open>any\<close>. The model keeps the JavaScript values that the
  orchestrator can tell apart. An entry of \<^verbatim>\<open>triage_results\<close> is an object with a string
  \<^verbatim>\<open>smiles\<close> and a number \<^verbatim>\<open>pIC50\<close>; the number is a finite double, read as the real it
  denotes (the comparator only uses the sign of a difference of two such numbers, which
  is the sign of the exact difference). Arrays are homogeneous: of strings, or of such
  entries. An object is the list of its properties.
\<close>

record candidate =
  smiles :: string
  pIC50 :: real

datatype jsval =
    JUndefined
  | JNull
  | JBool bool
  | JNum real
  | JStr string
  | JStrArray "string list"
  | JCandArray "candidate list"
  | JObj "(string \<times> jsval) list"

record StepResult =
  rtype :: ResultType
  data :: jsval
  explanation :: "string option"

text \<open>\<^verbatim>\<open>PipelineStep\<close> without its icon; \<^verbatim>\<open>id\<close> is called \<open>step_id\<close> here.\<close>

record PipelineStep =
  step_id :: StepId
  name :: string
  description :: string

section \<open>The fixed step order (constants.tsx)\<close>

definition PIPELINE_STEPS :: "PipelineStep list" where
  "PIPELINE_STEPS =
    [ \<lparr>step_id = DataAssembly, name = ''Data Assembly & Featurization'',
        description = ''Standardize and featurize input molecules.''\<rparr>,
      \<lparr>step_id = PocketDetection, name = ''Pocket Detection'',
        description = ''Locate binding pockets on the protein target.''\<rparr>,
      \<lparr>step_id = GenerativeDesign, name = ''Generative Design'',
        description = ''Create novel candidate molecules.''\<rparr>,
      \<lparr>step_id = RapidTriage, name = ''Rapid Triage'',
        description = ''Quickly filter candidates with learned models.''\<rparr>,
      \<lparr>step_id = DockingRescoring, name = ''Docking & AI Rescoring'',
        description = ''Perform physics-based docking and score with AI.''\<rparr>,
      \<lparr>step_id = MdSimulation, name = ''MD Sanity Check'',
        description = ''Check binding stability with molecular dynamics.''\<rparr>,
      \<lparr>step_id = AdmetPrediction, name = ''ADMET Prediction'',
        description = ''Predict absorption, distribution, metabolism, excretion, and toxicity.''\<rparr>,
      \<lparr>step_id = ActiveLearning, name = ''Active Learning Loop'',
        description = ''Intelligently select the next compounds to test.''\<rparr>,
      \<lparr>step_id = SynthesisPlanning, name = ''Synthesis Planning'',
        description = ''Check synthetic accessibility of top candidates.''\<rparr>,
      \<lparr>step_id = FinalReport, name = ''Final Report'',
        description = ''Generate a summary of the entire pipeline.''\<rparr> ]"

text \<open>\<^verbatim>\<open>Array.prototype.findIndex\<close>: the index of the first match, or \<open>-1\<close>.\<close>

fun findIndexFrom :: "('a \<Rightarrow> bool) \<Rightarrow> 'a list \<Rightarrow> int \<Rightarrow> int" where
  "findIndexFrom p [] i = - 1"
| "findIndexFrom p (x # xs) i = (if p x then i else findIndexFrom p xs (i + 1))"

definition findIndex :: "('a \<Rightarrow> bool) \<Rightarrow> 'a list \<Rightarrow> int" where
  "findIndex p xs = findIndexFrom p xs 0"

section \<open>JavaScript values: truthiness, property reads, sorting\<close>

text \<open>
  The \<^verbatim>\<open>message\<close> of a thrown value. \<open>Msg t\<close> is the string \<open>t\<close>. \<open>EngineTypeError p\<close> is
  the text the engine gives the TypeError it raises when property \<open>p\<close> is read from
  \<^verbatim>\<open>null\<close> or \<^verbatim>\<open>undefined\<close>; its wording differs between engines and is never empty.
\<close>

datatype message = Msg string | EngineTypeError string

text \<open>
  A thrown value, as far as the \<^verbatim>\<open>catch\<close> block tells values apart. \<open>Nullish\<close> is \<^verbatim>\<open>undefined\<close>
  or \<^verbatim>\<open>null\<close>, on which reading \<^verbatim>\<open>.message\<close> itself throws. \<open>Thrown m\<close> is any other value,
  with \<open>m\<close> its \<^verbatim>\<open>message\<close> property, \<open>None\<close> when it has none.
\<close>

datatype thrown = Nullish | Thrown "message option"

fun truthy :: "jsval \<Rightarrow> bool" where
  "truthy JUndefined = False"
| "truthy JNull = False"
| "truthy (JBool b) = b"
| "truthy (JNum r) = (r \<noteq> 0)"
| "truthy (JStr t) = (t \<noteq> [])"
| "truthy (JStrArray xs) = True"
| "truthy (JCandArray cs) = True"
| "truthy (JObj fs) = True"

fun truthyMessage :: "message \<Rightarrow> bool" where
  "truthyMessage (Msg t) = (t \<noteq> [])"
| "truthyMessage (EngineTypeError p) = True"

fun isArray :: "jsval \<Rightarrow> bool" where
  "isArray (JStrArray xs) = True"
| "isArray (JCandArray cs) = True"
| "isArray v = False"

fun arrayLength :: "jsval \<Rightarrow> nat" where
  "arrayLength (JStrArray xs) = length xs"
| "arrayLength (JCandArray cs) = length cs"
| "arrayLength v = 0"

text \<open>
  Reading a property \<open>p\<close> that is one of \<^verbatim>\<open>generated_smiles\<close>, \<^verbatim>\<open>triage_results\<close>: a
  TypeError on \<^verbatim>\<open>null\<close> and \<^verbatim>\<open>undefined\<close>, the property's value on an object that has it,
  \<^verbatim>\<open>undefined\<close> everywhere else.
\<close>

fun getProp :: "jsval \<Rightarrow> string \<Rightarrow> thrown + jsval" where
  "getProp JUndefined p = Inl (Thrown (Some (EngineTypeError p)))"
| "getProp JNull p = Inl (Thrown (Some (EngineTypeError p)))"
| "getProp (JObj fs) p = Inr (case map_of fs p of None \<Rightarrow> JUndefined | Some v \<Rightarrow> v)"
| "getProp v p = Inr JUndefined"

text \<open>
  \<^verbatim>\<open>Array.prototype.sort(cmp)\<close> with a consistent comparator: \<open>a\<close> comes before \<open>b\<close> when
  \<open>cmp a b < 0\<close>, and elements that compare equal keep their order (the sort is stable).
  The model inserts the elements from the right, each before the first element it does
  not have to follow.
\<close>

fun insertBy :: "('a \<Rightarrow> 'a \<Rightarrow> real) \<Rightarrow> 'a \<Rightarrow> 'a list \<Rightarrow> 'a list" where
  "insertBy cmp x [] = [x]"
| "insertBy cmp x (y # ys) = (if cmp x y \<le> 0 then x # y # ys else y # insertBy cmp x ys)"

definition js_sort :: "('a \<Rightarrow> 'a \<Rightarrow> real) \<Rightarrow> 'a list \<Rightarrow> 'a list" where
  "js_sort cmp xs = foldr (insertBy cmp) xs []"

text \<open>The comparator \<^verbatim>\<open>(a, b) => b.pIC50 - a.pIC50\<close>.\<close>

definition byPIC50Desc :: "candidate \<Rightarrow> candidate \<Rightarrow> real" where
  "byPIC50Desc a b = pIC50 b - pIC50 a"

section \<open>Application state (App.tsx)\<close>

record AppState =
  activeStep :: StepId
  moleculeSmiles :: string
  receptorPdbId :: string
  results :: "StepId \<Rightarrow> StepResult option"
  isLoading :: bool
  error :: "message option"

definition initialState :: AppState where
  "initialState =
     \<lparr>activeStep = DataAssembly, moleculeSmiles = ''CCO'', receptorPdbId = ''4HER'',
      results = (\<lambda>k. None), isLoading = False, error = None\<rparr>"

definition handleStepClick :: "StepId \<Rightarrow> AppState \<Rightarrow> AppState" where
  "handleStepClick i s = s\<lparr>activeStep := i, error := None\<rparr>"

definition onSmilesChange :: "string \<Rightarrow> AppState \<Rightarrow> AppState" where
  "onSmilesChange v s = s\<lparr>moleculeSmiles := v\<rparr>"

definition onReceptorChange :: "string \<Rightarrow> AppState \<Rightarrow> AppState" where
  "onReceptorChange v s = s\<lparr>receptorPdbId := v\<rparr>"

section \<open>Executing the active step\<close>

text \<open>The calls of the analysis service (services/geminiService), with their arguments.\<close>

datatype request =
    AnalyzeDataAssembly string
  | DetectPocket string
  | GenerateCandidates string
  | TriageCandidates jsval
  | RunDocking "jsval list" string
  | RunMDSimulation string
  | PredictADMET string
  | SuggestNextSteps string
  | PlanSynthesis string
  | GenerateFinalReport string string "StepId \<Rightarrow> StepResult option"

definition generatedNotFound :: string where
  "generatedNotFound =
     ''Generated molecules not found. Please complete the \"Generative Design\" step first.''"

definition triageNotFound :: string where
  "triageNotFound =
     ''Triage results not found. Please complete the \"Rapid Triage\" step first.''"

definition unexpectedError :: string where
  "unexpectedError = ''An unexpected error occurred.''"

text \<open>
  The guard
  \<^verbatim>\<open>r?.type === 'json' && r.data.triage_results && Array.isArray(r.data.triage_results)
     && r.data.triage_results.length > 0\<close>
  written twice in the source (in \<^verbatim>\<open>getTopTriageCandidate\<close> and in the docking case).
  \<open>Inr (Some v)\<close>: the guard holds and \<open>v\<close> is the array; \<open>Inr None\<close>: it does not hold;
  \<open>Inl e\<close>: reading the property threw.
\<close>

definition triageGuard :: "StepResult option \<Rightarrow> thrown + jsval option" where
  "triageGuard triageResult =
     (case triageResult of
        None \<Rightarrow> Inr None
      | Some r \<Rightarrow>
          if rtype r \<noteq> Json then Inr None
          else (case getProp (data r) ''triage_results'' of
                  Inl e \<Rightarrow> Inl e
                | Inr v \<Rightarrow>
                    if truthy v \<and> isArray v \<and> 0 < arrayLength v then Inr (Some v)
                    else Inr None))"

text \<open>
  \<^verbatim>\<open>getTopTriageCandidate\<close>: the \<^verbatim>\<open>smiles\<close> of element 0 of the sorted copy, or \<^verbatim>\<open>null\<close>
  (\<open>None\<close>). On an array of strings every comparison is \<^verbatim>\<open>NaN\<close>, which \<^verbatim>\<open>sort\<close> reads as
  0, and \<^verbatim>\<open>.smiles\<close> of a string is \<^verbatim>\<open>undefined\<close>, as falsy as \<^verbatim>\<open>null\<close> for the callers.
\<close>

definition getTopTriageCandidate :: "(StepId \<Rightarrow> StepResult option) \<Rightarrow> thrown + string option" where
  "getTopTriageCandidate rs =
     (case triageGuard (rs RapidTriage) of
        Inl e \<Rightarrow> Inl e
      | Inr None \<Rightarrow> Inr None
      | Inr (Some v) \<Rightarrow>
          (case v of
             JCandArray cs \<Rightarrow>
               (case js_sort byPIC50Desc cs of
                  [] \<Rightarrow> Inl (Thrown (Some (EngineTypeError ''smiles'')))
                | c # rest \<Rightarrow> Inr (Some (smiles c)))
           | _ \<Rightarrow> Inr None))"

text \<open>
  The docking case's
  \<^verbatim>\<open>[...triage_results].sort((a, b) => b.pIC50 - a.pIC50).slice(0, 3).map(item => item.smiles)\<close>.
\<close>

definition topSmiles :: "jsval \<Rightarrow> jsval list" where
  "topSmiles v =
     (case v of
        JCandArray cs \<Rightarrow> map (\<lambda>item. JStr (smiles item)) (take 3 (js_sort byPIC50Desc cs))
      | JStrArray xs \<Rightarrow> map (\<lambda>item. JUndefined) (take 3 xs)
      | _ \<Rightarrow> [])"

text \<open>
  The block shared by the cases \<^verbatim>\<open>md-simulation\<close> to \<^verbatim>\<open>final-report\<close>:
  \<^verbatim>\<open>const topMolecule = getTopTriageCandidate();
    if (topMolecule) { response = await call(topMolecule); } else { throw new Error(...); }\<close>
  The empty string is falsy.
\<close>

definition withTopMolecule ::
    "(StepId \<Rightarrow> StepResult option) \<Rightarrow> (string \<Rightarrow> request) \<Rightarrow> thrown + request" where
  "withTopMolecule rs call =
     (case getTopTriageCandidate rs of
        Inl e \<Rightarrow> Inl e
      | Inr None \<Rightarrow> Inl (Thrown (Some (Msg triageNotFound)))
      | Inr (Some topMolecule) \<Rightarrow>
          if topMolecule \<noteq> [] then Inr (call topMolecule)
          else Inl (Thrown (Some (Msg triageNotFound))))"

text \<open>
  The synchronous part of the \<^verbatim>\<open>switch\<close>: either the service call the step is about to
  make (\<open>Inr\<close>), or the value thrown before any call (\<open>Inl\<close>).
\<close>

definition resolveRequest :: "AppState \<Rightarrow> thrown + request" where
  "resolveRequest s =
     (case activeStep s of
        DataAssembly \<Rightarrow> Inr (AnalyzeDataAssembly (moleculeSmiles s))
      | PocketDetection \<Rightarrow> Inr (DetectPocket (moleculeSmiles s))
      | GenerativeDesign \<Rightarrow> Inr (GenerateCandidates (moleculeSmiles s))
      | RapidTriage \<Rightarrow>
          (case results s GenerativeDesign of
             None \<Rightarrow> Inl (Thrown (Some (Msg generatedNotFound)))
           | Some r \<Rightarrow>
               if rtype r \<noteq> Json then Inl (Thrown (Some (Msg generatedNotFound)))
               else (case getProp (data r) ''generated_smiles'' of
                       Inl e \<Rightarrow> Inl e
                     | Inr v \<Rightarrow>
                         if truthy v then Inr (TriageCandidates v)
                         else Inl (Thrown (Some (Msg generatedNotFound)))))
      | DockingRescoring \<Rightarrow>
          (case triageGuard (results s RapidTriage) of
             Inl e \<Rightarrow> Inl e
           | Inr None \<Rightarrow> Inl (Thrown (Some (Msg triageNotFound)))
           | Inr (Some v) \<Rightarrow> Inr (RunDocking (topSmiles v) (receptorPdbId s)))
      | MdSimulation \<Rightarrow> withTopMolecule (results s) RunMDSimulation
      | AdmetPrediction \<Rightarrow> withTopMolecule (results s) PredictADMET
      | ActiveLearning \<Rightarrow> withTopMolecule (results s) SuggestNextSteps
      | SynthesisPlanning \<Rightarrow> withTopMolecule (results s) PlanSynthesis
      | FinalReport \<Rightarrow>
          withTopMolecule (results s)
            (\<lambda>finalCandidateSmiles.
               GenerateFinalReport (moleculeSmiles s) finalCandidateSmiles (results s)))"

text \<open>
  \<^verbatim>\<open>m || 'An unexpected error occurred.'\<close> for the value \<open>m\<close> of \<^verbatim>\<open>e.message\<close>: a missing
  message and the empty string are falsy.
\<close>

definition catchMessage :: "message option \<Rightarrow> message" where
  "catchMessage m =
     (case m of
        None \<Rightarrow> Msg unexpectedError
      | Some t \<Rightarrow> if truthyMessage t then t else Msg unexpectedError)"

text \<open>
  The \<^verbatim>\<open>catch\<close> block \<^verbatim>\<open>setError(e.message || 'An unexpected error occurred.')\<close>. When \<open>e\<close> is
  \<^verbatim>\<open>undefined\<close> or \<^verbatim>\<open>null\<close>, reading \<^verbatim>\<open>e.message\<close> throws a TypeError inside the block:
  \<^verbatim>\<open>setError\<close> is not reached and the state is left as it is.
\<close>

definition catchBlock :: "thrown \<Rightarrow> AppState \<Rightarrow> AppState" where
  "catchBlock e s =
     (case e of
        Nullish \<Rightarrow> s
      | Thrown m \<Rightarrow> s\<lparr>error := Some (catchMessage m)\<rparr>)"

text \<open>
  What leaves the \<^verbatim>\<open>catch\<close> block: nothing (\<open>None\<close>) when the block completes, the TypeError
  of the failed read of \<^verbatim>\<open>message\<close> otherwise.
\<close>

definition escapesCatch :: "thrown \<Rightarrow> thrown option" where
  "escapesCatch e =
     (case e of
        Nullish \<Rightarrow> Some (Thrown (Some (EngineTypeError ''message'')))
      | Thrown m \<Rightarrow> None)"

text \<open>
  \<^verbatim>\<open>handleStepExecution\<close>, one invocation from its first line to the end of \<^verbatim>\<open>finally\<close>.
  The analysis service is the parameter \<open>svc\<close>: a call resolves with a \<^verbatim>\<open>StepResult\<close>
  (an object, so \<^verbatim>\<open>if (response)\<close> holds) or rejects with a thrown value, and it does not
  modify what it is handed. The result is the state at the end together with the service
  calls that were issued; \<^verbatim>\<open>finally\<close> runs on every path, also when the \<^verbatim>\<open>catch\<close> block itself
  throws. No other state update runs in between, so the values the
  callback closed over (\<^verbatim>\<open>activeStep\<close>, \<^verbatim>\<open>moleculeSmiles\<close>, \<^verbatim>\<open>results\<close>, \<^verbatim>\<open>receptorPdbId\<close>) and
  the \<^verbatim>\<open>prev\<close> of \<^verbatim>\<open>setResults\<close> are those of the state \<open>s\<close> it starts from. The function
  never reads \<^verbatim>\<open>isLoading\<close>.
\<close>

definition handleStepExecution ::
    "(request \<Rightarrow> thrown + StepResult) \<Rightarrow> AppState \<Rightarrow> AppState \<times> request list" where
  "handleStepExecution svc s =
     (let s1 = s\<lparr>isLoading := True, error := None\<rparr>;
          currentStepIndex = findIndex (\<lambda>step. step_id step = activeStep s) PIPELINE_STEPS
      in case resolveRequest s of
           Inl e \<Rightarrow> ((catchBlock e s1)\<lparr>isLoading := False\<rparr>, [])
         | Inr req \<Rightarrow>
             (case svc req of
                Inl e \<Rightarrow> ((catchBlock e s1)\<lparr>isLoading := False\<rparr>, [req])
              | Inr response \<Rightarrow>
                  (let s2 = s1\<lparr>results := (results s1)(activeStep s := Some response)\<rparr>;
                       s3 = (if currentStepIndex < int (length PIPELINE_STEPS) - 1
                             then s2\<lparr>activeStep :=
                                       step_id (PIPELINE_STEPS ! nat (currentStepIndex + 1))\<rparr>
                             else s2)
                   in (s3\<lparr>isLoading := False\<rparr>, [req]))))"

text \<open>
  How the promise returned by \<^verbatim>\<open>handleStepExecution\<close> settles: it is fulfilled (\<open>None\<close>) unless
  an error left the \<^verbatim>\<open>catch\<close> block, with which it is then rejected.
\<close>

definition handlerRejection ::
    "(request \<Rightarrow> thrown + StepResult) \<Rightarrow> AppState \<Rightarrow> thrown option" where
  "handlerRejection svc s =
     (case resolveRequest s of
        Inl e \<Rightarrow> escapesCatch e
      | Inr req \<Rightarrow>
          (case svc req of
             Inl e \<Rightarrow> escapesCatch e
           | Inr response \<Rightarrow> None))"

section \<open>Array identity: the sort works on a copy\<close>

text \<open>
  In the source an array is a mutable object, and \<^verbatim>\<open>sort\<close> reorders the very array it is
  called on. Whether the stored \<^verbatim>\<open>triage_results\<close> can change therefore depends on which
  array is sorted. This section models arrays of candidates as cells of a heap: \<open>cells h a\<close>
  is the content of the array at address \<open>a\<close>, and \<open>fresh h\<close> is the next unused address.
\<close>

record heap =
  cells :: "nat \<Rightarrow> candidate list"
  fresh :: nat

text \<open>\<^verbatim>\<open>[...a]\<close>: a new array with the elements of \<open>a\<close>.\<close>

definition spreadCopy :: "heap \<Rightarrow> nat \<Rightarrow> nat \<times> heap" where
  "spreadCopy h a =
     (fresh h, h\<lparr>cells := (cells h)(fresh h := cells h a), fresh := Suc (fresh h)\<rparr>)"

text \<open>\<^verbatim>\<open>a.sort(cmp)\<close>: reorders \<open>a\<close> itself and returns it.\<close>

definition sortInPlace :: "(candidate \<Rightarrow> candidate \<Rightarrow> real) \<Rightarrow> heap \<Rightarrow> nat \<Rightarrow> nat \<times> heap" where
  "sortInPlace cmp h a = (a, h\<lparr>cells := (cells h)(a := js_sort cmp (cells h a))\<rparr>)"

text \<open>\<^verbatim>\<open>a.slice(0, n)\<close>: a new array with the first \<open>n\<close> elements of \<open>a\<close>.\<close>

definition sliceCopy :: "heap \<Rightarrow> nat \<Rightarrow> nat \<Rightarrow> nat \<times> heap" where
  "sliceCopy h a n =
     (fresh h, h\<lparr>cells := (cells h)(fresh h := take n (cells h a)), fresh := Suc (fresh h)\<rparr>)"

text \<open>
  \<^verbatim>\<open>[...triage_results].sort((a, b) => b.pIC50 - a.pIC50)\<close> on the array stored at \<open>a\<close>.
\<close>

definition sortedCandidatesHeap :: "heap \<Rightarrow> nat \<Rightarrow> nat \<times> heap" where
  "sortedCandidatesHeap h a =
     (let (b, h1) = spreadCopy h a in sortInPlace byPIC50Desc h1 b)"

text \<open>\<^verbatim>\<open>sortedCandidates[0].smiles\<close> in \<^verbatim>\<open>getTopTriageCandidate\<close>.\<close>

definition topCandidateHeap :: "heap \<Rightarrow> nat \<Rightarrow> (thrown + string) \<times> heap" where
  "topCandidateHeap h a =
     (let (b, h2) = sortedCandidatesHeap h a
      in (case cells h2 b of
            [] \<Rightarrow> Inl (Thrown (Some (EngineTypeError ''smiles'')))
          | c # rest \<Rightarrow> Inr (smiles c),
          h2))"

text \<open>The docking case's \<^verbatim>\<open>topSmiles\<close>; the mapped array is returned as its elements.\<close>

definition topSmilesHeap :: "heap \<Rightarrow> nat \<Rightarrow> jsval list \<times> heap" where
  "topSmilesHeap h a =
     (let (b, h2) = sortedCandidatesHeap h a;
          (c, h3) = sliceCopy h2 b 3
      in (map (\<lambda>item. JStr (smiles item)) (cells h3 c), h3))"

section \<open>Example states and services\<close>

text \<open>The steps after \<^verbatim>\<open>rapid-triage\<close> in the fixed order.\<close>

definition downstreamOfTriage :: "StepId set" where
  "downstreamOfTriage =
     {DockingRescoring, MdSimulation, AdmetPrediction, ActiveLearning, SynthesisPlanning,
      FinalReport}"

text \<open>A structured result whose payload is \<^verbatim>\<open>{ triage_results: cs }\<close>.\<close>

definition triageResultOf :: "candidate list \<Rightarrow> StepResult" where
  "triageResultOf cs =
     \<lparr>rtype = Json, data = JObj [(''triage_results'', JCandArray cs)], explanation = None\<rparr>"

text \<open>A structured result whose payload is \<^verbatim>\<open>{ generated_smiles: v }\<close>.\<close>

definition generatedResultOf :: "jsval \<Rightarrow> StepResult" where
  "generatedResultOf v =
     \<lparr>rtype = Json, data = JObj [(''generated_smiles'', v)], explanation = None\<rparr>"

text \<open>The state of a fresh session in which only the slot \<open>k\<close> holds a result, at step \<open>a\<close>.\<close>

definition stateWith :: "StepId \<Rightarrow> StepId \<Rightarrow> StepResult \<Rightarrow> AppState" where
  "stateWith a k r =
     initialState\<lparr>activeStep := a, results := (results initialState)(k := Some r)\<rparr>"

text \<open>The example of the specification: A with pIC50 5.0, B and C with 7.2.\<close>

definition exampleTriage :: "candidate list" where
  "exampleTriage =
     [\<lparr>smiles = ''A'', pIC50 = 5\<rparr>, \<lparr>smiles = ''B'', pIC50 = 7.2\<rparr>,
      \<lparr>smiles = ''C'', pIC50 = 7.2\<rparr>]"

text \<open>A triage list with two entries, the better one second.\<close>

definition twoCandidates :: "candidate list" where
  "twoCandidates = [\<lparr>smiles = ''CCN'', pIC50 = 6.1\<rparr>, \<lparr>smiles = ''CCCl'', pIC50 = 8.4\<rparr>]"

text \<open>A heap whose only array, at address 0, is the example list.\<close>

definition exampleHeap :: heap where
  "exampleHeap = \<lparr>cells = (\<lambda>k. if k = 0 then exampleTriage else []), fresh = 1\<rparr>"

text \<open>A service that answers every call with the same text result, and one that rejects.\<close>

definition okResult :: StepResult where
  "okResult = \<lparr>rtype = Text, data = JStr ''ok'', explanation = None\<rparr>"

definition okService :: "request \<Rightarrow> thrown + StepResult" where
  "okService req = Inr okResult"

definition failingService :: "thrown \<Rightarrow> request \<Rightarrow> thrown + StepResult" where
  "failingService e req = Inl e"

text \<open>The fresh session while an execution is in flight.\<close>

definition busyState :: AppState where
  "busyState = initialState\<lparr>isLoading := True\<rparr>"

text \<open>
  At \<^verbatim>\<open>rapid-triage\<close>, with a \<^verbatim>\<open>generative-design\<close> result whose \<^verbatim>\<open>generated_smiles\<close> is the
  empty array.
\<close>

definition emptyGeneratedState :: AppState where
  "emptyGeneratedState =
     stateWith RapidTriage GenerativeDesign (generatedResultOf (JStrArray []))"

section \<open>Facts about the step order and the sort\<close>

lemma js_sort_sort_key: "js_sort byPIC50Desc cs = sort_key (\<lambda>c. - pIC50 c) cs"
proof -
  have ins: "insertBy byPIC50Desc x ys = insort_key (\<lambda>c. - pIC50 c) x ys" for x ys
    by (induction ys) (simp_all add: byPIC50Desc_def)
  show ?thesis
    unfolding js_sort_def sort_key_def by (induction cs) (simp_all add: ins)
qed

lemma distinct_step_ids: "distinct (map step_id PIPELINE_STEPS)"
  by (simp add: PIPELINE_STEPS_def)

lemma length_PIPELINE_STEPS: "length PIPELINE_STEPS = 10"
  by (simp add: PIPELINE_STEPS_def)

lemma findIndexFrom_nth:
  "i < length xs \<Longrightarrow> p (xs ! i) \<Longrightarrow> \<forall>j<i. \<not> p (xs ! j) \<Longrightarrow> findIndexFrom p xs n = n + int i"
proof (induction xs arbitrary: i n)
  case Nil
  then show ?case by simp
next
  case (Cons x xs)
  show ?case
  proof (cases i)
    case 0
    with Cons.prems show ?thesis by simp
  next
    case (Suc k)
    from Cons.prems Suc have k: "k < length xs" "p (xs ! k)" by simp_all
    from Cons.prems(3) Suc have nx: "\<not> p x" by auto
    from Cons.prems(3) Suc have "\<forall>j<k. \<not> p (xs ! j)" by auto
    with Cons.IH [OF k(1) k(2), of "n + 1"] nx Suc show ?thesis by simp
  qed
qed

lemma currentStepIndex_nth:
  assumes "i < length PIPELINE_STEPS"
  shows "findIndex (\<lambda>step. step_id step = step_id (PIPELINE_STEPS ! i)) PIPELINE_STEPS = int i"
proof -
  have "\<forall>j<i. step_id (PIPELINE_STEPS ! j) \<noteq> step_id (PIPELINE_STEPS ! i)"
    using distinct_step_ids assms
    by (auto simp: distinct_conv_nth)
  with assms show ?thesis
    unfolding findIndex_def by (simp add: findIndexFrom_nth)
qed

lemma every_step_listed: "\<exists>i<length PIPELINE_STEPS. step_id (PIPELINE_STEPS ! i) = k"
proof -
  have "k \<in> set (map step_id PIPELINE_STEPS)"
    by (cases k) (simp_all add: PIPELINE_STEPS_def)
  then show ?thesis
    by (auto simp: in_set_conv_nth)
qed

lemma step_index_unique:
  assumes "i < length PIPELINE_STEPS" "j < length PIPELINE_STEPS"
    and "step_id (PIPELINE_STEPS ! i) = step_id (PIPELINE_STEPS ! j)"
  shows "i = j"
  using distinct_step_ids assms by (auto simp: distinct_conv_nth)

lemma last_step: "step_id (last PIPELINE_STEPS) = FinalReport"
  by (simp add: PIPELINE_STEPS_def)

lemma sort_perm: "mset (js_sort byPIC50Desc cs) = mset cs"
  by (simp add: js_sort_sort_key)

lemma sort_length: "length (js_sort byPIC50Desc cs) = length cs"
  by (simp add: js_sort_sort_key)

lemma sort_descending: "sorted_wrt (\<lambda>a b. pIC50 b \<le> pIC50 a) (js_sort byPIC50Desc cs)"
proof -
  have "sorted (map (\<lambda>c. - pIC50 c) (js_sort byPIC50Desc cs))"
    by (simp add: js_sort_sort_key)
  then show ?thesis
    by (simp add: sorted_map)
qed

lemma sort_stable:
  "filter (\<lambda>c. pIC50 c = k) (js_sort byPIC50Desc cs) = filter (\<lambda>c. pIC50 c = k) cs"
proof -
  have "filter (\<lambda>c. - pIC50 c = - k) (sort_key (\<lambda>c. - pIC50 c) cs) =
        filter (\<lambda>c. - pIC50 c = - k) cs"
    by (rule sort_key_stable)
  then show ?thesis
    by (simp add: js_sort_sort_key)
qed

lemma sort_nonempty: "cs \<noteq> [] \<Longrightarrow> js_sort byPIC50Desc cs \<noteq> []"
  using sort_length [of cs] by (metis length_0_conv)

lemma example_sorted:
  "js_sort byPIC50Desc exampleTriage =
     [\<lparr>smiles = ''B'', pIC50 = 7.2\<rparr>, \<lparr>smiles = ''C'', pIC50 = 7.2\<rparr>, \<lparr>smiles = ''A'', pIC50 = 5\<rparr>]"
  by (simp add: js_sort_def exampleTriage_def byPIC50Desc_def)

section \<open>Facts about one execution\<close>

text \<open>The three ways an execution ends: thrown before the call, rejected, resolved.\<close>

lemma catchBlock_Thrown: "catchBlock (Thrown m) s = s\<lparr>error := Some (catchMessage m)\<rparr>"
  by (simp add: catchBlock_def)


lemma catchBlock_frame:
  "results (catchBlock e s) = results s"
  "activeStep (catchBlock e s) = activeStep s"
  "isLoading (catchBlock e s) = isLoading s"
  "moleculeSmiles (catchBlock e s) = moleculeSmiles s"
  "receptorPdbId (catchBlock e s) = receptorPdbId s"
  by (cases e; simp add: catchBlock_def)+

lemma exec_throw:
  "resolveRequest s = Inl e \<Longrightarrow>
   handleStepExecution svc s =
     ((catchBlock e (s\<lparr>isLoading := True, error := None\<rparr>))\<lparr>isLoading := False\<rparr>, [])"
  by (simp add: handleStepExecution_def Let_def)

lemma exec_reject:
  "resolveRequest s = Inr req \<Longrightarrow> svc req = Inl e \<Longrightarrow>
   handleStepExecution svc s =
     ((catchBlock e (s\<lparr>isLoading := True, error := None\<rparr>))\<lparr>isLoading := False\<rparr>, [req])"
  by (simp add: handleStepExecution_def Let_def)

lemma exec_success:
  assumes "resolveRequest s = Inr req" "svc req = Inr response"
    and "i < length PIPELINE_STEPS" "activeStep s = step_id (PIPELINE_STEPS ! i)"
  shows "handleStepExecution svc s =
    (s\<lparr>isLoading := False, error := None,
       results := (results s)(activeStep s := Some response),
       activeStep := (if i + 1 < length PIPELINE_STEPS then step_id (PIPELINE_STEPS ! (i + 1))
                      else activeStep s)\<rparr>, [req])"
proof -
  have idx: "findIndex (\<lambda>step. step_id step = activeStep s) PIPELINE_STEPS = int i"
    using currentStepIndex_nth [OF assms(3)] assms(4) by simp
  have n: "nat (int i + 1) = i + 1" by simp
  show ?thesis
    using assms(1,2)
    by (auto simp add: handleStepExecution_def Let_def idx n)
qed

lemma exec_results_frame:
  "j \<noteq> activeStep s \<Longrightarrow> results (fst (handleStepExecution svc s)) j = results s j"
  by (simp add: handleStepExecution_def Let_def catchBlock_frame split: sum.splits)

lemma exec_success_slot:
  assumes "resolveRequest s = Inr req" "svc req = Inr response"
    and "handleStepExecution svc s = (s', calls)"
  shows "results s' (activeStep s) = Some response"
  using assms by (auto simp add: handleStepExecution_def Let_def split: if_splits)

lemma exec_slot_kept_on_failure:
  assumes "handleStepExecution svc s = (s', calls)"
    and "\<not> (\<exists>req response. resolveRequest s = Inr req \<and> svc req = Inr response)"
  shows "results s' = results s"
proof (cases "resolveRequest s")
  case (Inl e)
  with assms(1) show ?thesis
    using exec_throw [of s e svc] by (auto simp: catchBlock_frame)
next
  case (Inr req)
  with assms(2) obtain e where "svc req = Inl e"
    by (cases "svc req") auto
  with Inr assms(1) show ?thesis
    using exec_reject [of s req svc e] by (auto simp: catchBlock_frame)
qed

lemma exec_active_frame:
  assumes "handleStepExecution svc s = (s', calls)" and "activeStep s' \<noteq> activeStep s"
  shows "\<exists>i req response. i + 1 < length PIPELINE_STEPS
            \<and> activeStep s = step_id (PIPELINE_STEPS ! i)
            \<and> activeStep s' = step_id (PIPELINE_STEPS ! (i + 1))
            \<and> resolveRequest s = Inr req \<and> svc req = Inr response"
proof (cases "resolveRequest s")
  case (Inl e)
  with assms show ?thesis
    using exec_throw [of s e svc] by (auto simp: catchBlock_frame)
next
  case (Inr req)
  note r = this
  show ?thesis
  proof (cases "svc req")
    case (Inl e)
    with assms r show ?thesis
      using exec_reject [of s req svc e] by (auto simp: catchBlock_frame)
  next
    case (Inr response)
    obtain k where k: "k < length PIPELINE_STEPS" "activeStep s = step_id (PIPELINE_STEPS ! k)"
      using every_step_listed [of "activeStep s"] by auto
    have s': "s' = s\<lparr>isLoading := False, error := None,
         results := (results s)(activeStep s := Some response),
         activeStep := (if k + 1 < length PIPELINE_STEPS then step_id (PIPELINE_STEPS ! (k + 1))
                        else activeStep s)\<rparr>"
      using exec_success [of s req svc response k] r Inr k assms(1) by simp
    have lt: "k + 1 < length PIPELINE_STEPS"
    proof (rule ccontr)
      assume "\<not> k + 1 < length PIPELINE_STEPS"
      then have "activeStep s' = activeStep s" unfolding s' by simp
      with assms(2) show False by simp
    qed
    then have "activeStep s' = step_id (PIPELINE_STEPS ! (k + 1))"
      unfolding s' by simp
    with lt k(2) r Inr show ?thesis by blast
  qed
qed

lemma resolve_ignores_isLoading: "resolveRequest (s\<lparr>isLoading := b\<rparr>) = resolveRequest s"
  by (cases "activeStep s") (simp_all add: resolveRequest_def split: sum.splits option.splits)

section \<open>Facts about the dependency checks\<close>

lemma triageGuard_candidates:
  assumes "rtype r = Json" "getProp (data r) ''triage_results'' = Inr (JCandArray cs)" "cs \<noteq> []"
  shows "triageGuard (Some r) = Inr (Some (JCandArray cs))"
  using assms by (simp add: triageGuard_def)

lemma getTop_candidates:
  assumes "rs RapidTriage = Some r" "rtype r = Json"
    "getProp (data r) ''triage_results'' = Inr (JCandArray cs)" "cs \<noteq> []"
  shows "getTopTriageCandidate rs = Inr (Some (smiles (js_sort byPIC50Desc cs ! 0)))"
proof -
  obtain c rest where "js_sort byPIC50Desc cs = c # rest"
    using sort_nonempty [OF assms(4)] by (cases "js_sort byPIC50Desc cs") auto
  then show ?thesis
    using assms(1) triageGuard_candidates [OF assms(2,3,4)]
    by (simp add: getTopTriageCandidate_def)
qed

lemma resolve_docking:
  assumes "activeStep s = DockingRescoring" "results s RapidTriage = Some r" "rtype r = Json"
    "getProp (data r) ''triage_results'' = Inr (JCandArray cs)" "cs \<noteq> []"
  shows "resolveRequest s =
     Inr (RunDocking (map (\<lambda>item. JStr (smiles item)) (take 3 (js_sort byPIC50Desc cs)))
            (receptorPdbId s))"
  using assms(1,2) triageGuard_candidates [OF assms(3,4,5)]
  by (simp add: resolveRequest_def topSmiles_def)

lemma triageGuard_empty_slot: "triageGuard None = Inr None"
  by (simp add: triageGuard_def)

lemma resolve_invalid_triage:
  assumes "activeStep s \<in> downstreamOfTriage" and "triageGuard (results s RapidTriage) = Inr None"
  shows "resolveRequest s = Inl (Thrown (Some (Msg triageNotFound)))"
  using assms
  by (cases "activeStep s")
     (simp_all add: resolveRequest_def withTopMolecule_def getTopTriageCandidate_def
        downstreamOfTriage_def)

lemma resolve_missing_generated:
  assumes "activeStep s = RapidTriage" and "results s GenerativeDesign = None"
  shows "resolveRequest s = Inl (Thrown (Some (Msg generatedNotFound)))"
  using assms by (simp add: resolveRequest_def)

text \<open>
  A \<^verbatim>\<open>rapid-triage\<close> slot that fails the guard stops every later step before any call:
  an empty slot, a result that is not \<^verbatim>\<open>'json'\<close>, a \<^verbatim>\<open>triage_results\<close> that is missing,
  not an array, or empty.
\<close>

lemma invalid_triage_fails_before_call:
  assumes "activeStep s \<in> downstreamOfTriage" and "triageGuard (results s RapidTriage) = Inr None"
  shows "handleStepExecution svc s =
           (s\<lparr>isLoading := False, error := Some (Msg triageNotFound)\<rparr>, [])"
  using exec_throw [OF resolve_invalid_triage [OF assms], of svc]
  by (simp add: catchBlock_Thrown catchMessage_def triageNotFound_def)

lemma empty_triage_results_rejected: "triageGuard (Some (triageResultOf [])) = Inr None"
  by (simp add: triageGuard_def triageResultOf_def)

lemma non_array_triage_results_rejected:
  "triageGuard (Some \<lparr>rtype = Json, data = JObj [(''triage_results'', JStr ''none'')],
      explanation = None\<rparr>) = Inr None"
  by (simp add: triageGuard_def)

text \<open>
  A call rejected with \<^verbatim>\<open>undefined\<close> or \<^verbatim>\<open>null\<close> makes the handler's own promise reject; a
  rejection with any other value is absorbed by the \<^verbatim>\<open>catch\<close> block.
\<close>

lemma nullish_rejection_escapes:
  "resolveRequest s = Inr req \<Longrightarrow> svc req = Inl Nullish \<Longrightarrow>
   handlerRejection svc s = Some (Thrown (Some (EngineTypeError ''message'')))"
  by (simp add: handlerRejection_def escapesCatch_def)

lemma other_rejection_absorbed:
  "resolveRequest s = Inr req \<Longrightarrow> svc req = Inl (Thrown m) \<Longrightarrow> handlerRejection svc s = None"
  by (simp add: handlerRejection_def escapesCatch_def)

section \<open>Facts about the heap-level selection\<close>

lemma sortedCandidatesHeap_eq:
  "sortedCandidatesHeap h a =
     (fresh h, h\<lparr>cells := (cells h)(fresh h := js_sort byPIC50Desc (cells h a)),
                fresh := Suc (fresh h)\<rparr>)"
  by (simp add: sortedCandidatesHeap_def spreadCopy_def sortInPlace_def)

lemma topCandidateHeap_value:
  "fst (topCandidateHeap h a) =
     (case js_sort byPIC50Desc (cells h a) of
        [] \<Rightarrow> Inl (Thrown (Some (EngineTypeError ''smiles'')))
      | c # rest \<Rightarrow> Inr (smiles c))"
  by (simp add: topCandidateHeap_def sortedCandidatesHeap_eq)

lemma topCandidateHeap_frame:
  "a < fresh h \<Longrightarrow> cells (snd (topCandidateHeap h a)) a = cells h a"
  by (simp add: topCandidateHeap_def sortedCandidatesHeap_eq)

lemma topSmilesHeap_value:
  "fst (topSmilesHeap h a) = topSmiles (JCandArray (cells h a))"
  by (simp add: topSmilesHeap_def sortedCandidatesHeap_eq sliceCopy_def topSmiles_def)

lemma topSmilesHeap_frame:
  "a < fresh h \<Longrightarrow> cells (snd (topSmilesHeap h a)) a = cells h a"
  by (simp add: topSmilesHeap_def sortedCandidatesHeap_eq sliceCopy_def)

text \<open>Sorting the stored array itself, without the copy, would reorder it.\<close>

lemma sortInPlace_reorders:
  "cells (snd (sortInPlace byPIC50Desc h a)) a = js_sort byPIC50Desc (cells h a)"
  by (simp add: sortInPlace_def)

section \<open>Claims about the executing-flag and the selection\<close>

text \<open>
  \<^bold>\<open>C1\<close>, as amended. \<^verbatim>\<open>handleStepExecution\<close> has no guard on \<^verbatim>\<open>isLoading\<close>: started from a
  state in which the flag is set it does exactly what it does from the same state with
  the flag clear, so the final state and the service calls issued do not depend on the
  flag's value at the start. In particular, with the flag set and an input that resolves
  to a request, that service call is issued.
\<close>

theorem execution_ignores_isLoading:
  "handleStepExecution svc (s\<lparr>isLoading := b\<rparr>) = handleStepExecution svc s
   \<and> (isLoading s \<and> resolveRequest s = Inr req \<longrightarrow> snd (handleStepExecution svc s) = [req])"
proof -
  have same: "handleStepExecution svc (s\<lparr>isLoading := b\<rparr>) = handleStepExecution svc s"
    by (simp add: handleStepExecution_def resolve_ignores_isLoading Let_def split: sum.splits)
  have call: "snd (handleStepExecution svc s) = [req]" if "resolveRequest s = Inr req"
    using that by (simp add: handleStepExecution_def Let_def split: sum.splits)
  from same call show ?thesis by simp
qed

theorem execution_ignores_isLoading_witness:
  "handleStepExecution okService busyState = handleStepExecution okService initialState
   \<and> snd (handleStepExecution okService busyState) = [AnalyzeDataAssembly ''CCO'']"
proof -
  have l: "isLoading busyState"
    by (simp add: busyState_def)
  have r: "resolveRequest busyState = Inr (AnalyzeDataAssembly ''CCO'')"
    by (simp add: resolveRequest_def busyState_def initialState_def)
  have "handleStepExecution okService (initialState\<lparr>isLoading := True\<rparr>) =
          handleStepExecution okService initialState"
    using execution_ignores_isLoading [where svc = okService and s = initialState and b = True]
    by simp
  then have one: "handleStepExecution okService busyState =
                    handleStepExecution okService initialState"
    by (simp only: busyState_def)
  have two: "snd (handleStepExecution okService busyState) = [AnalyzeDataAssembly ''CCO'']"
    using execution_ignores_isLoading [where svc = okService and s = busyState
        and req = "AnalyzeDataAssembly ''CCO''"] l r
    by simp
  from one two show ?thesis by simp
qed

text \<open>
  C1 as it was stated fails: in the fresh session with the flag set, an execution calls
  the service, fills the \<^verbatim>\<open>data-assembly\<close> slot and advances to \<^verbatim>\<open>pocket-detection\<close>.
\<close>

theorem execute_while_loading_counterexample:
  "isLoading busyState \<and> results busyState DataAssembly = None
   \<and> activeStep busyState = DataAssembly
   \<and> snd (handleStepExecution okService busyState) = [AnalyzeDataAssembly ''CCO'']
   \<and> results (fst (handleStepExecution okService busyState)) DataAssembly = Some okResult
   \<and> activeStep (fst (handleStepExecution okService busyState)) = PocketDetection"
  by (simp add: busyState_def initialState_def okService_def handleStepExecution_def
      resolveRequest_def Let_def findIndex_def PIPELINE_STEPS_def)

text \<open>
  \<^bold>\<open>C2\<close>. When the \<^verbatim>\<open>rapid-triage\<close> slot holds a structured result with a non-empty
  \<^verbatim>\<open>triage_results\<close> list \<open>cs\<close>, the selection works on \<open>js_sort byPIC50Desc cs\<close>, which is a
  rearrangement of \<open>cs\<close>, is in descending order of \<^verbatim>\<open>pIC50\<close>, and keeps entries of equal
  \<^verbatim>\<open>pIC50\<close> in their input order. The top candidate is the \<^verbatim>\<open>smiles\<close> of its element 0, and
  docking is called with the \<^verbatim>\<open>smiles\<close> of its first three elements. For the example list
  the top candidate is B and the docking list is B, C, A.
\<close>

theorem top_candidate_selection:
  assumes "results s RapidTriage = Some r" and "rtype r = Json"
    and "getProp (data r) ''triage_results'' = Inr (JCandArray cs)" and "cs \<noteq> []"
  shows "mset (js_sort byPIC50Desc cs) = mset cs
       \<and> sorted_wrt (\<lambda>a b. pIC50 b \<le> pIC50 a) (js_sort byPIC50Desc cs)
       \<and> (\<forall>k. filter (\<lambda>c. pIC50 c = k) (js_sort byPIC50Desc cs) = filter (\<lambda>c. pIC50 c = k) cs)
       \<and> getTopTriageCandidate (results s) = Inr (Some (smiles (js_sort byPIC50Desc cs ! 0)))
       \<and> (activeStep s = DockingRescoring \<longrightarrow>
            resolveRequest s =
              Inr (RunDocking (map (\<lambda>item. JStr (smiles item)) (take 3 (js_sort byPIC50Desc cs)))
                     (receptorPdbId s)))
       \<and> (cs = exampleTriage \<longrightarrow>
            getTopTriageCandidate (results s) = Inr (Some ''B'')
            \<and> map (\<lambda>item. JStr (smiles item)) (take 3 (js_sort byPIC50Desc cs)) =
                [JStr ''B'', JStr ''C'', JStr ''A''])"
proof -
  note top = getTop_candidates [of "results s" r cs, OF assms]
  have ex: "getTopTriageCandidate (results s) = Inr (Some ''B'')
            \<and> map (\<lambda>item. JStr (smiles item)) (take 3 (js_sort byPIC50Desc cs)) =
                [JStr ''B'', JStr ''C'', JStr ''A'']" if "cs = exampleTriage"
    using top that by (simp add: example_sorted)
  have dock: "resolveRequest s =
              Inr (RunDocking (map (\<lambda>item. JStr (smiles item)) (take 3 (js_sort byPIC50Desc cs)))
                     (receptorPdbId s))" if "activeStep s = DockingRescoring"
    using resolve_docking [OF that assms] .
  show ?thesis
    using sort_perm [of cs] sort_descending [of cs] sort_stable [of _ cs] top ex dock
    by blast
qed

theorem top_candidate_selection_witness:
  "getTopTriageCandidate
      (results (stateWith DockingRescoring RapidTriage (triageResultOf exampleTriage))) =
     Inr (Some ''B'')
   \<and> resolveRequest (stateWith DockingRescoring RapidTriage (triageResultOf exampleTriage)) =
       Inr (RunDocking [JStr ''B'', JStr ''C'', JStr ''A''] ''4HER'')"
proof -
  let ?s = "stateWith DockingRescoring RapidTriage (triageResultOf exampleTriage)"
  have h1: "results ?s RapidTriage = Some (triageResultOf exampleTriage)"
    by (simp add: stateWith_def)
  have h2: "rtype (triageResultOf exampleTriage) = Json"
    by (simp add: triageResultOf_def)
  have h3: "getProp (data (triageResultOf exampleTriage)) ''triage_results'' =
              Inr (JCandArray exampleTriage)"
    by (simp add: triageResultOf_def)
  have h4: "exampleTriage \<noteq> []"
    by (simp add: exampleTriage_def)
  have a: "activeStep ?s = DockingRescoring" and r: "receptorPdbId ?s = ''4HER''"
    by (simp_all add: stateWith_def initialState_def)
  note t = top_candidate_selection [of ?s "triageResultOf exampleTriage" exampleTriage,
      OF h1 h2 h3 h4]
  from t have c1: "getTopTriageCandidate (results ?s) = Inr (Some ''B'')"
    by blast
  from t a have c2: "resolveRequest ?s =
      Inr (RunDocking (map (\<lambda>item. JStr (smiles item)) (take 3 (js_sort byPIC50Desc exampleTriage)))
             (receptorPdbId ?s))"
    by blast
  from t have c3: "map (\<lambda>item. JStr (smiles item)) (take 3 (js_sort byPIC50Desc exampleTriage)) =
                [JStr ''B'', JStr ''C'', JStr ''A'']"
    by blast
  show ?thesis
    by (simp only: c1 c2 c3 r simp_thms)
qed

section \<open>Claims about failures\<close>

text \<open>
  \<^bold>\<open>C3\<close>. Let the active step be \<^verbatim>\<open>rapid-triage\<close> with dependency slot \<^verbatim>\<open>generative-design\<close> and
  the message "Generated molecules not found ...", or any later step with dependency slot
  \<^verbatim>\<open>rapid-triage\<close> and the message "Triage results not found ...". If the dependency slot
  is empty, the execution issues no service call and ends in the starting state with
  that message as the error and the flag clear: \<^verbatim>\<open>results\<close> and \<^verbatim>\<open>activeStep\<close> are unchanged.
\<close>

theorem missing_dependency_fails:
  assumes "activeStep s = RapidTriage \<and> d = GenerativeDesign \<and> m = generatedNotFound
           \<or> activeStep s \<in> downstreamOfTriage \<and> d = RapidTriage \<and> m = triageNotFound"
    and "results s d = None"
    and "handleStepExecution svc s = (s', calls)"
  shows "calls = [] \<and> s' = s\<lparr>isLoading := False, error := Some (Msg m)\<rparr>
       \<and> error s' = Some (Msg m) \<and> results s' = results s \<and> activeStep s' = activeStep s
       \<and> \<not> isLoading s'"
proof -
  have ne: "m \<noteq> []"
    using assms(1) by (auto simp: generatedNotFound_def triageNotFound_def)
  have "resolveRequest s = Inl (Thrown (Some (Msg m)))"
    using assms(1)
  proof
    assume "activeStep s = RapidTriage \<and> d = GenerativeDesign \<and> m = generatedNotFound"
    with assms(2) show ?thesis
      by (simp add: resolve_missing_generated)
  next
    assume "activeStep s \<in> downstreamOfTriage \<and> d = RapidTriage \<and> m = triageNotFound"
    with assms(2) show ?thesis
      by (simp add: resolve_invalid_triage triageGuard_empty_slot)
  qed
  then have "handleStepExecution svc s =
               ((catchBlock (Thrown (Some (Msg m))) (s\<lparr>isLoading := True, error := None\<rparr>))
                  \<lparr>isLoading := False\<rparr>, [])"
    by (rule exec_throw)
  with ne have "handleStepExecution svc s =
                  (s\<lparr>isLoading := False, error := Some (Msg m)\<rparr>, [])"
    by (simp add: catchBlock_Thrown catchMessage_def)
  with assms(3) have "s' = s\<lparr>isLoading := False, error := Some (Msg m)\<rparr>" and "calls = []"
    by simp_all
  then show ?thesis by simp
qed

theorem missing_dependency_fails_witness:
  "handleStepExecution okService (initialState\<lparr>activeStep := RapidTriage\<rparr>) =
     (initialState\<lparr>activeStep := RapidTriage,
        error := Some (Msg ''Generated molecules not found. Please complete the \"Generative Design\" step first.'')\<rparr>,
      [])
   \<and> handleStepExecution okService (initialState\<lparr>activeStep := MdSimulation\<rparr>) =
     (initialState\<lparr>activeStep := MdSimulation,
        error := Some (Msg ''Triage results not found. Please complete the \"Rapid Triage\" step first.'')\<rparr>,
      [])"
proof -
  let ?a = "initialState\<lparr>activeStep := RapidTriage\<rparr>"
  let ?b = "initialState\<lparr>activeStep := MdSimulation\<rparr>"
  obtain sa ca where ha: "handleStepExecution okService ?a = (sa, ca)"
    by (cases "handleStepExecution okService ?a")
  obtain sb cb where hb: "handleStepExecution okService ?b = (sb, cb)"
    by (cases "handleStepExecution okService ?b")
  have "ca = [] \<and> sa = ?a\<lparr>isLoading := False, error := Some (Msg generatedNotFound)\<rparr>"
    using missing_dependency_fails [of ?a GenerativeDesign generatedNotFound okService sa ca] ha
    by (simp add: initialState_def)
  moreover have "cb = [] \<and> sb = ?b\<lparr>isLoading := False, error := Some (Msg triageNotFound)\<rparr>"
    using missing_dependency_fails [of ?b RapidTriage triageNotFound okService sb cb] hb
    by (simp add: initialState_def downstreamOfTriage_def)
  ultimately show ?thesis
    using ha hb by (simp add: initialState_def generatedNotFound_def triageNotFound_def)
qed




text \<open>
  \<^bold>\<open>C6\<close>. The claim asks that an empty \<^verbatim>\<open>generated_smiles\<close> list stops \<^verbatim>\<open>rapid-triage\<close> before
  any service call. The code tests the field for truthiness only, and an empty array is
  truthy: at \<open>emptyGeneratedState\<close> the input resolves to a call of \<^verbatim>\<open>triageCandidates\<close> with
  the empty list, whatever the service; with a service that answers, the execution ends
  without an error and advances to \<^verbatim>\<open>docking-rescoring\<close>. The guard on \<^verbatim>\<open>triage_results\<close>
  does reject the empty list (\<open>empty_triage_results_rejected\<close>).
\<close>

theorem empty_generated_smiles_reaches_service:
  "resolveRequest emptyGeneratedState = Inr (TriageCandidates (JStrArray []))
   \<and> snd (handleStepExecution svc emptyGeneratedState) = [TriageCandidates (JStrArray [])]
   \<and> error (fst (handleStepExecution okService emptyGeneratedState)) = None
   \<and> activeStep (fst (handleStepExecution okService emptyGeneratedState)) = DockingRescoring"
proof -
  have r: "resolveRequest emptyGeneratedState = Inr (TriageCandidates (JStrArray []))"
    by (simp add: emptyGeneratedState_def stateWith_def resolveRequest_def generatedResultOf_def
        initialState_def)
  have c: "snd (handleStepExecution svc emptyGeneratedState) = [TriageCandidates (JStrArray [])]"
    by (simp add: handleStepExecution_def r Let_def split: sum.splits)
  have a: "activeStep emptyGeneratedState = step_id (PIPELINE_STEPS ! 3)"
    by (simp add: emptyGeneratedState_def stateWith_def PIPELINE_STEPS_def)
  have ok: "okService (TriageCandidates (JStrArray [])) = Inr okResult"
    by (simp add: okService_def)
  have "handleStepExecution okService emptyGeneratedState =
    (emptyGeneratedState\<lparr>isLoading := False, error := None,
       results := (results emptyGeneratedState)(activeStep emptyGeneratedState := Some okResult),
       activeStep := (if 3 + 1 < length PIPELINE_STEPS then step_id (PIPELINE_STEPS ! (3 + 1))
                      else activeStep emptyGeneratedState)\<rparr>, [TriageCandidates (JStrArray [])])"
    using exec_success [of emptyGeneratedState "TriageCandidates (JStrArray [])" okService
        okResult 3] r ok a
    by (simp add: length_PIPELINE_STEPS)
  then have "error (fst (handleStepExecution okService emptyGeneratedState)) = None
    \<and> activeStep (fst (handleStepExecution okService emptyGeneratedState)) = DockingRescoring"
    by (simp add: PIPELINE_STEPS_def)
  with r c show ?thesis by simp
qed

section \<open>Claims about a successful execution and the result slots\<close>

text \<open>
  \<^bold>\<open>C5\<close>. When the input of the active step \<open>k\<close> resolves to a service call and the call
  resolves with \<open>response\<close>, the execution ends with \<open>response\<close> stored in the slot of \<open>k\<close> and
  nothing else changed in \<^verbatim>\<open>results\<close>; if \<open>k\<close> is at position \<open>i\<close> of \<open>PIPELINE_STEPS\<close> and is
  not the last, the active step is the one at position \<open>i + 1\<close>; if \<open>k\<close> is the last step,
  \<^verbatim>\<open>final-report\<close>, the active step stays; the flag is clear.
\<close>

theorem collaborator_success:
  assumes "resolveRequest s = Inr req" and "svc req = Inr response"
    and "handleStepExecution svc s = (s', calls)"
  shows "calls = [req]
         \<and> results s' = (results s)(activeStep s := Some response)
         \<and> (\<forall>i. i + 1 < length PIPELINE_STEPS \<and> activeStep s = step_id (PIPELINE_STEPS ! i)
                \<longrightarrow> activeStep s' = step_id (PIPELINE_STEPS ! (i + 1)))
         \<and> step_id (last PIPELINE_STEPS) = FinalReport
         \<and> (activeStep s = FinalReport \<longrightarrow> activeStep s' = FinalReport)
         \<and> \<not> isLoading s'"
proof -
  obtain k where k: "k < length PIPELINE_STEPS" "activeStep s = step_id (PIPELINE_STEPS ! k)"
    using every_step_listed [of "activeStep s"] by auto
  let ?next = "if k + 1 < length PIPELINE_STEPS then step_id (PIPELINE_STEPS ! (k + 1))
               else activeStep s"
  have "(s', calls) =
          (s\<lparr>isLoading := False, error := None,
             results := (results s)(activeStep s := Some response), activeStep := ?next\<rparr>, [req])"
    using exec_success [of s req svc response k] assms k by simp
  then have s': "s' = s\<lparr>isLoading := False, error := None,
             results := (results s)(activeStep s := Some response), activeStep := ?next\<rparr>"
    and calls: "calls = [req]"
    by simp_all
  have adv: "activeStep s' = step_id (PIPELINE_STEPS ! (i + 1))"
    if "i + 1 < length PIPELINE_STEPS" "activeStep s = step_id (PIPELINE_STEPS ! i)" for i
  proof -
    have e: "step_id (PIPELINE_STEPS ! i) = step_id (PIPELINE_STEPS ! k)"
      using that(2) k(2) by metis
    have "i = k"
      by (rule step_index_unique [OF _ k(1) e]) (use that(1) in simp)
    with that(1) show ?thesis unfolding s' by simp
  qed
  have stay: "activeStep s' = FinalReport" if fin: "activeStep s = FinalReport"
  proof -
    have l9: "step_id (PIPELINE_STEPS ! 9) = FinalReport"
      by (simp add: PIPELINE_STEPS_def)
    have e: "step_id (PIPELINE_STEPS ! k) = step_id (PIPELINE_STEPS ! 9)"
      using k(2) fin l9 by metis
    have "k = 9"
      by (rule step_index_unique [OF k(1) _ e]) (simp add: length_PIPELINE_STEPS)
    then have "\<not> k + 1 < length PIPELINE_STEPS"
      by (simp add: length_PIPELINE_STEPS)
    then have "activeStep s' = activeStep s" unfolding s' by simp
    with fin show ?thesis by simp
  qed
  from s' calls adv stay last_step show ?thesis by simp
qed

theorem collaborator_success_witness:
  "handleStepExecution okService initialState =
     (initialState\<lparr>activeStep := PocketDetection,
                   results := (results initialState)(DataAssembly := Some okResult)\<rparr>,
      [AnalyzeDataAssembly ''CCO''])
   \<and> activeStep (fst (handleStepExecution okService
                        (stateWith FinalReport RapidTriage (triageResultOf exampleTriage)))) =
       FinalReport
   \<and> results (fst (handleStepExecution okService
                     (stateWith FinalReport RapidTriage (triageResultOf exampleTriage))))
        FinalReport = Some okResult"
proof -
  let ?req = "AnalyzeDataAssembly ''CCO''"
  let ?f = "stateWith FinalReport RapidTriage (triageResultOf exampleTriage)"
  let ?freq = "GenerateFinalReport ''CCO'' ''B'' (results ?f)"
  obtain s' calls where h: "handleStepExecution okService initialState = (s', calls)"
    by (cases "handleStepExecution okService initialState")
  obtain s2 calls2 where h2: "handleStepExecution okService ?f = (s2, calls2)"
    by (cases "handleStepExecution okService ?f")
  have r: "resolveRequest initialState = Inr ?req"
    by (simp add: resolveRequest_def initialState_def)
  have top: "getTopTriageCandidate (results ?f) = Inr (Some ''B'')"
    using getTop_candidates [of "results ?f" "triageResultOf exampleTriage" exampleTriage]
    by (simp add: stateWith_def triageResultOf_def example_sorted) (simp add: exampleTriage_def)
  have fa: "activeStep ?f = FinalReport" and fm: "moleculeSmiles ?f = ''CCO''"
    by (simp_all add: stateWith_def initialState_def)
  have r2: "resolveRequest ?f = Inr ?freq"
    by (simp add: resolveRequest_def fa fm withTopMolecule_def top)
  have f: "okService ?req = Inr okResult" and f2: "okService ?freq = Inr okResult"
    by (simp_all add: okService_def)
  note t = collaborator_success [of initialState ?req okService okResult s' calls, OF r f h]
  note t2 = collaborator_success [of ?f ?freq okService okResult s2 calls2, OF r2 f2 h2]
  have a0: "0 + 1 < length PIPELINE_STEPS \<and> activeStep initialState = step_id (PIPELINE_STEPS ! 0)"
    by (simp add: PIPELINE_STEPS_def initialState_def)
  from t a0 have "activeStep s' = step_id (PIPELINE_STEPS ! (0 + 1))"
    by blast
  then have a: "activeStep s' = PocketDetection"
    by (simp add: PIPELINE_STEPS_def)
  from t have c: "calls = [?req]"
    and rs: "results s' = (results initialState)(DataAssembly := Some okResult)"
    and l: "\<not> isLoading s'"
    by (simp_all add: initialState_def)
  have "moleculeSmiles s' = moleculeSmiles initialState
      \<and> receptorPdbId s' = receptorPdbId initialState \<and> error s' = None"
    using h by (simp add: handleStepExecution_def r f Let_def) auto
  with a rs l have first: "s' = initialState\<lparr>activeStep := PocketDetection,
                   results := (results initialState)(DataAssembly := Some okResult)\<rparr>"
    by (cases s') (simp add: initialState_def)
  from t2 fa have second: "activeStep s2 = FinalReport \<and> results s2 FinalReport = Some okResult"
    by simp
  from h c first h2 second show ?thesis by simp
qed

text \<open>
  \<^bold>\<open>C7\<close>. Executing a step whose slot already holds a result leaves the slot of every other
  step as it was; when the service call resolves, the step's own slot holds the new
  response; and the active step changes only when the call resolved and the step is not
  the last, to the step that follows it in \<open>PIPELINE_STEPS\<close>.
\<close>

theorem reexecution_overwrites_only_own_slot:
  assumes "results s (activeStep s) \<noteq> None" and "handleStepExecution svc s = (s', calls)"
  shows "(\<forall>j. j \<noteq> activeStep s \<longrightarrow> results s' j = results s j)
       \<and> (\<forall>req response. resolveRequest s = Inr req \<and> svc req = Inr response
              \<longrightarrow> results s' (activeStep s) = Some response)
       \<and> (activeStep s' \<noteq> activeStep s \<longrightarrow>
            (\<exists>i req response. i + 1 < length PIPELINE_STEPS
               \<and> activeStep s = step_id (PIPELINE_STEPS ! i)
               \<and> activeStep s' = step_id (PIPELINE_STEPS ! (i + 1))
               \<and> resolveRequest s = Inr req \<and> svc req = Inr response))"
proof -
  have s': "s' = fst (handleStepExecution svc s)"
    using assms(2) by simp
  have frame: "\<forall>j. j \<noteq> activeStep s \<longrightarrow> results s' j = results s j"
    unfolding s' by (simp add: exec_results_frame)
  have own: "results s' (activeStep s) = Some response"
    if "resolveRequest s = Inr req" "svc req = Inr response" for req response
    using exec_success_slot [of s req svc response s' calls] that assms(2) by simp
  show ?thesis
    using frame own exec_active_frame [OF assms(2)] by blast
qed

theorem reexecution_overwrites_only_own_slot_witness:
  "results (fst (handleStepExecution okService
              (stateWith DataAssembly DataAssembly (generatedResultOf JNull)))) DataAssembly
     = Some okResult
   \<and> results (fst (handleStepExecution okService
              (stateWith DataAssembly DataAssembly (generatedResultOf JNull)))) RapidTriage
     = None"
proof -
  let ?s = "stateWith DataAssembly DataAssembly (generatedResultOf JNull)"
  obtain s' calls where h: "handleStepExecution okService ?s = (s', calls)"
    by (cases "handleStepExecution okService ?s")
  have p: "results ?s (activeStep ?s) \<noteq> None"
    by (simp add: stateWith_def)
  have a: "activeStep ?s = DataAssembly"
    by (simp add: stateWith_def)
  have r: "resolveRequest ?s = Inr (AnalyzeDataAssembly ''CCO'')"
    by (simp add: resolveRequest_def stateWith_def initialState_def)
  have f: "okService (AnalyzeDataAssembly ''CCO'') = Inr okResult"
    by (simp add: okService_def)
  have n: "results ?s RapidTriage = None"
    by (simp add: stateWith_def initialState_def)
  note t = reexecution_overwrites_only_own_slot [of ?s okService s' calls, OF p h]
  from t r f have "results s' (activeStep ?s) = Some okResult"
    by blast
  moreover from t a have "results s' RapidTriage = results ?s RapidTriage"
    by simp
  ultimately show ?thesis
    using h a n by simp
qed

text \<open>
  \<^bold>\<open>C8\<close>. A slot that holds a result before one of the operations still holds one after
  it: selecting a step (\<^verbatim>\<open>handleStepClick\<close>), editing the SMILES field, editing the receptor
  field, and executing the active step, whatever the service does.
\<close>

theorem populated_slot_stays_populated:
  assumes "results s k \<noteq> None"
  shows "results (handleStepClick i s) k \<noteq> None
       \<and> results (onSmilesChange v s) k \<noteq> None
       \<and> results (onReceptorChange w s) k \<noteq> None
       \<and> results (fst (handleStepExecution svc s)) k \<noteq> None"
proof -
  obtain s' calls where h: "handleStepExecution svc s = (s', calls)"
    by (cases "handleStepExecution svc s")
  have "results s' k \<noteq> None"
  proof (cases "k = activeStep s")
    case False
    then have "results s' k = results s k"
      using exec_results_frame [of k s svc] h by simp
    with assms show ?thesis by simp
  next
    case True
    show ?thesis
    proof (cases "\<exists>req response. resolveRequest s = Inr req \<and> svc req = Inr response")
      case True
      then obtain req response where "resolveRequest s = Inr req" "svc req = Inr response"
        by blast
      then have "results s' (activeStep s) = Some response"
        using exec_success_slot [of s req svc response s' calls] h by simp
      with \<open>k = activeStep s\<close> show ?thesis by simp
    next
      case False
      then have "results s' = results s"
        using exec_slot_kept_on_failure [of svc s s' calls] h by simp
      with assms show ?thesis by simp
    qed
  qed
  with h assms show ?thesis
    by (simp add: handleStepClick_def onSmilesChange_def onReceptorChange_def)
qed

theorem populated_slot_stays_populated_witness:
  "results (handleStepClick FinalReport (stateWith DataAssembly DataAssembly okResult))
      DataAssembly \<noteq> None
   \<and> results (onSmilesChange ''CCN'' (stateWith DataAssembly DataAssembly okResult))
      DataAssembly \<noteq> None
   \<and> results (onReceptorChange ''1ABC'' (stateWith DataAssembly DataAssembly okResult))
      DataAssembly \<noteq> None
   \<and> results (fst (handleStepExecution (failingService (Thrown None))
                     (stateWith DataAssembly DataAssembly okResult)))
      DataAssembly \<noteq> None"
proof -
  have "results (stateWith DataAssembly DataAssembly okResult) DataAssembly \<noteq> None"
    by (simp add: stateWith_def)
  then show ?thesis
    by (rule populated_slot_stays_populated)
qed

section \<open>Claims about the stored triage list\<close>

text \<open>
  \<^bold>\<open>C9\<close>. Executing a step after \<^verbatim>\<open>rapid-triage\<close> leaves the \<^verbatim>\<open>rapid-triage\<close> slot as it was,
  whatever the service answers. At the level of arrays: when the stored list is the array
  at an allocated address \<open>a\<close>, both selections (the top candidate and the docking list)
  leave the content of \<open>a\<close>, order included, as it was, because \<^verbatim>\<open>sort\<close> runs on the fresh
  copy; and what they return is what \<open>getTopTriageCandidate\<close> and the docking request of
  \<open>resolveRequest\<close> compute from the stored list.
\<close>

theorem triage_payload_untouched_downstream:
  assumes "activeStep s \<in> downstreamOfTriage" and "a < fresh h"
  shows "results (fst (handleStepExecution svc s)) RapidTriage = results s RapidTriage
       \<and> cells (snd (topCandidateHeap h a)) a = cells h a
       \<and> cells (snd (topSmilesHeap h a)) a = cells h a
       \<and> (\<forall>r. results s RapidTriage = Some r \<and> rtype r = Json
               \<and> getProp (data r) ''triage_results'' = Inr (JCandArray (cells h a))
               \<and> cells h a \<noteq> []
             \<longrightarrow> getTopTriageCandidate (results s) =
                   (case fst (topCandidateHeap h a) of
                      Inl e \<Rightarrow> Inl e | Inr topMolecule \<Rightarrow> Inr (Some topMolecule))
                 \<and> (activeStep s = DockingRescoring \<longrightarrow>
                      resolveRequest s =
                        Inr (RunDocking (fst (topSmilesHeap h a)) (receptorPdbId s))))"
proof -
  have "RapidTriage \<noteq> activeStep s"
    using assms(1) by (auto simp: downstreamOfTriage_def)
  then have slot: "results (fst (handleStepExecution svc s)) RapidTriage = results s RapidTriage"
    by (rule exec_results_frame)
  have agree: "getTopTriageCandidate (results s) =
                   (case fst (topCandidateHeap h a) of
                      Inl e \<Rightarrow> Inl e | Inr topMolecule \<Rightarrow> Inr (Some topMolecule))
                 \<and> (activeStep s = DockingRescoring \<longrightarrow>
                      resolveRequest s =
                        Inr (RunDocking (fst (topSmilesHeap h a)) (receptorPdbId s)))"
    if r: "results s RapidTriage = Some r" "rtype r = Json"
      "getProp (data r) ''triage_results'' = Inr (JCandArray (cells h a))" "cells h a \<noteq> []"
    for r
  proof -
    obtain c rest where cr: "js_sort byPIC50Desc (cells h a) = c # rest"
      using sort_nonempty [OF r(4)] by (cases "js_sort byPIC50Desc (cells h a)") auto
    have g: "triageGuard (results s RapidTriage) = Inr (Some (JCandArray (cells h a)))"
      using triageGuard_candidates [OF r(2,3,4)] r(1) by simp
    have top: "getTopTriageCandidate (results s) =
                   (case fst (topCandidateHeap h a) of
                      Inl e \<Rightarrow> Inl e | Inr topMolecule \<Rightarrow> Inr (Some topMolecule))"
      by (simp add: getTopTriageCandidate_def g topCandidateHeap_value cr)
    have dock: "resolveRequest s = Inr (RunDocking (fst (topSmilesHeap h a)) (receptorPdbId s))"
      if "activeStep s = DockingRescoring"
      using that by (simp add: resolveRequest_def g topSmilesHeap_value)
    from top dock show ?thesis by simp
  qed
  show ?thesis
    using slot topCandidateHeap_frame [OF assms(2)] topSmilesHeap_frame [OF assms(2)] agree
    by blast
qed

theorem triage_payload_untouched_downstream_witness:
  "results (fst (handleStepExecution okService
              (stateWith MdSimulation RapidTriage (triageResultOf exampleTriage)))) RapidTriage
     = Some (triageResultOf exampleTriage)
   \<and> cells (snd (topCandidateHeap exampleHeap 0)) 0 = exampleTriage
   \<and> cells (snd (topSmilesHeap exampleHeap 0)) 0 = exampleTriage"
proof -
  let ?s = "stateWith MdSimulation RapidTriage (triageResultOf exampleTriage)"
  have d: "activeStep ?s \<in> downstreamOfTriage"
    by (simp add: stateWith_def downstreamOfTriage_def)
  have f: "0 < fresh exampleHeap"
    by (simp add: exampleHeap_def)
  have c: "cells exampleHeap 0 = exampleTriage"
    by (simp add: exampleHeap_def)
  have r: "results ?s RapidTriage = Some (triageResultOf exampleTriage)"
    by (simp add: stateWith_def)
  show ?thesis
    using triage_payload_untouched_downstream [of ?s 0 exampleHeap okService, OF d f] c r
    by simp
qed

text \<open>
  \<^bold>\<open>C10\<close>. At \<^verbatim>\<open>docking-rescoring\<close>, when the \<^verbatim>\<open>rapid-triage\<close> slot holds a structured result
  whose \<^verbatim>\<open>triage_results\<close> list \<open>cs\<close> has one or two entries, nothing is thrown before the
  call: the execution issues exactly one call, \<^verbatim>\<open>runDocking\<close> with the receptor field and
  the \<^verbatim>\<open>smiles\<close> of all entries of \<open>cs\<close>, as many as \<open>cs\<close> has, in descending order of \<^verbatim>\<open>pIC50\<close>.
\<close>

theorem docking_with_fewer_than_three:
  assumes "activeStep s = DockingRescoring" and "results s RapidTriage = Some r"
    and "rtype r = Json" and "getProp (data r) ''triage_results'' = Inr (JCandArray cs)"
    and "cs \<noteq> []" and "length cs < 3"
  shows "resolveRequest s =
           Inr (RunDocking (map (\<lambda>item. JStr (smiles item)) (js_sort byPIC50Desc cs))
                  (receptorPdbId s))
       \<and> snd (handleStepExecution svc s) =
           [RunDocking (map (\<lambda>item. JStr (smiles item)) (js_sort byPIC50Desc cs))
              (receptorPdbId s)]
       \<and> length (js_sort byPIC50Desc cs) = length cs
       \<and> mset (js_sort byPIC50Desc cs) = mset cs
       \<and> sorted_wrt (\<lambda>a b. pIC50 b \<le> pIC50 a) (js_sort byPIC50Desc cs)"
proof -
  have "take 3 (js_sort byPIC50Desc cs) = js_sort byPIC50Desc cs"
    using assms(6) by (simp add: sort_length)
  then have r: "resolveRequest s =
           Inr (RunDocking (map (\<lambda>item. JStr (smiles item)) (js_sort byPIC50Desc cs))
                  (receptorPdbId s))"
    using resolve_docking [OF assms(1-5)] by simp
  then have "snd (handleStepExecution svc s) =
           [RunDocking (map (\<lambda>item. JStr (smiles item)) (js_sort byPIC50Desc cs))
              (receptorPdbId s)]"
    by (simp add: handleStepExecution_def Let_def split: sum.splits)
  with r show ?thesis
    by (simp add: sort_length sort_perm sort_descending)
qed

theorem docking_with_fewer_than_three_witness:
  "snd (handleStepExecution okService
          (stateWith DockingRescoring RapidTriage (triageResultOf twoCandidates))) =
     [RunDocking [JStr ''CCCl'', JStr ''CCN''] ''4HER'']"
proof -
  let ?s = "stateWith DockingRescoring RapidTriage (triageResultOf twoCandidates)"
  have h1: "activeStep ?s = DockingRescoring"
    by (simp add: stateWith_def)
  have h2: "results ?s RapidTriage = Some (triageResultOf twoCandidates)"
    by (simp add: stateWith_def)
  have h3: "rtype (triageResultOf twoCandidates) = Json"
    by (simp add: triageResultOf_def)
  have h4: "getProp (data (triageResultOf twoCandidates)) ''triage_results'' =
              Inr (JCandArray twoCandidates)"
    by (simp add: triageResultOf_def)
  have h5: "twoCandidates \<noteq> []" and h6: "length twoCandidates < 3"
    by (simp_all add: twoCandidates_def)
  have srt: "js_sort byPIC50Desc twoCandidates =
      [\<lparr>smiles = ''CCCl'', pIC50 = 8.4\<rparr>, \<lparr>smiles = ''CCN'', pIC50 = 6.1\<rparr>]"
    by (simp add: js_sort_def twoCandidates_def byPIC50Desc_def)
  have rc: "receptorPdbId ?s = ''4HER''"
    by (simp add: stateWith_def initialState_def)
  note t = docking_with_fewer_than_three [of ?s "triageResultOf twoCandidates" twoCandidates
      okService, OF h1 h2 h3 h4 h5 h6]
  from t have "snd (handleStepExecution okService ?s) =
           [RunDocking (map (\<lambda>item. JStr (smiles item)) (js_sort byPIC50Desc twoCandidates))
              (receptorPdbId ?s)]"
    by blast
  then show ?thesis
    by (simp only: srt rc list.map candidate.simps)
qed

end
